theory Spec2Isabelle
  imports Main
begin

section \<open>The catalog models of \<open>products/models.py\<close>\<close>

text \<open>
  The module declares four Django models.  Every model instance is a record whose fields are
  the model's columns; \<open>pk\<close> is \<open>None\<close> for an instance that was never stored.  A table is the
  list of its stored rows.  A write returns the instance as the call leaves it together with
  the outcome: the new table, or the error raised (the table is then unchanged).

  The storage layer is modelled as far as the module declares it: the constraints listed in
  each \<open>Meta.constraints\<close>.  Foreign-key existence, column lengths and NOT NULL columns are not
  part of the model.  Strings are byte strings; \<open>Lower\<close> folds the ASCII letters.
  Timestamps are natural numbers, and every clock reading of one call is the parameter
  \<open>now\<close>.  Prices are counted in hundredths, as the column \<open>decimal(10, 2)\<close> stores them.
\<close>

datatype error =
    ValueError
  | DatabaseError
  | IntegrityError "string list"

text \<open>
  \<open>IntegrityError vs\<close> carries the names of all constraints the rejected row violates, in
  the order of their declaration (a storage engine reports one of them).
\<close>

definition lower_char :: "char \<Rightarrow> char" where
  "lower_char c =
     (let n = (of_char c :: nat) in if 65 \<le> n \<and> n \<le> 90 then char_of (n + 32) else c)"

definition Lower :: "string \<Rightarrow> string" where
  "Lower s = map lower_char s"

text \<open>The key of a new row: one more than the largest key in use.\<close>

definition next_pk :: "nat option list \<Rightarrow> nat" where
  "next_pk ks = Suc (fold max (map (\<lambda>k. case k of None \<Rightarrow> 0 | Some n \<Rightarrow> n) ks) 0)"

subsection \<open>Category\<close>

record Category =
  pk :: "nat option"
  name :: string
  slug :: string
  parent :: "nat option"

type_synonym category_table = "Category list"

text \<open>
  \<open>UniqueConstraint(Lower("slug"), "parent")\<close>: a unique index over the pair.  SQL compares
  the indexed values with \<open>=\<close>, and a NULL is equal to nothing, itself included: Django's
  \<open>nulls_distinct\<close> is left at the default, under which rows with a NULL parent never
  conflict (PostgreSQL, SQLite, MySQL).
\<close>

definition cat_unique_slug_per_parent_ci :: "Category \<Rightarrow> category_table \<Rightarrow> bool" where
  "cat_unique_slug_per_parent_ci r db =
     (\<not> (\<exists>q \<in> set db. pk q \<noteq> pk r \<and> Lower (slug q) = Lower (slug r)
            \<and> parent r \<noteq> None \<and> parent q = parent r))"

text \<open>
  \<open>CheckConstraint(check=~Q(parent=F("id")))\<close>: a CHECK rejects a row only when its
  condition is false, so a NULL parent passes.
\<close>

definition cat_no_self_parent :: "Category \<Rightarrow> bool" where
  "cat_no_self_parent r = (\<not> (parent r \<noteq> None \<and> parent r = pk r))"

definition Category_violations :: "Category \<Rightarrow> category_table \<Rightarrow> string list" where
  "Category_violations r db =
     (if cat_unique_slug_per_parent_ci r db then [] else [''cat_unique_slug_per_parent_ci''])
     @ (if cat_no_self_parent r then [] else [''cat_no_self_parent''])"

text \<open>UPDATE of the row with the key of \<open>r\<close> when there is one, INSERT otherwise.\<close>

definition Category_write :: "Category \<Rightarrow> category_table \<Rightarrow> category_table" where
  "Category_write r db =
     (if \<exists>q \<in> set db. pk q = pk r then map (\<lambda>q. if pk q = pk r then r else q) db
      else db @ [r])"

text \<open>
  \<open>Category\<close> inherits \<open>Model.save\<close>.  The row the statement writes carries the key of the
  instance, or the next key when the instance has none.
\<close>

definition Category_row :: "Category \<Rightarrow> category_table \<Rightarrow> Category" where
  "Category_row c db =
     (case pk c of None \<Rightarrow> c\<lparr>pk := Some (next_pk (map pk db))\<rparr> | Some k \<Rightarrow> c)"

definition Category_save :: "Category \<Rightarrow> category_table \<Rightarrow> Category \<times> (error + category_table)" where
  "Category_save c db =
     (let r = Category_row c db; vs = Category_violations r db
      in if vs = [] then (r, Inr (Category_write r db)) else (c, Inl (IntegrityError vs)))"

text \<open>
  The tables a sequence of writes can produce.  A deletion, by whatever path (\<open>delete()\<close>,
  a cascade, the admin), only removes rows; \<open>on_delete=PROTECT\<close> only blocks removals.
\<close>

inductive Category_reachable :: "category_table \<Rightarrow> bool" where
  cr_empty: "Category_reachable []"
| cr_save: "Category_reachable db \<Longrightarrow> Category_save c db = (c', Inr db')
             \<Longrightarrow> Category_reachable db'"
| cr_delete: "Category_reachable db \<Longrightarrow> Category_reachable (filter P db)"

subsection \<open>ProductTag\<close>

record ProductTag =
  pk :: "nat option"
  product :: nat
  tag :: nat
  weight :: int
  added_at :: "nat option"

type_synonym producttag_table = "ProductTag list"

definition product_tag_unique :: "ProductTag \<Rightarrow> producttag_table \<Rightarrow> bool" where
  "product_tag_unique r db =
     (\<not> (\<exists>q \<in> set db. pk q \<noteq> pk r \<and> product q = product r \<and> tag q = tag r))"

definition producttag_weight_gte_1 :: "ProductTag \<Rightarrow> bool" where
  "producttag_weight_gte_1 r = (weight r \<ge> 1)"

definition ProductTag_violations :: "ProductTag \<Rightarrow> producttag_table \<Rightarrow> string list" where
  "ProductTag_violations r db =
     (if product_tag_unique r db then [] else [''product_tag_unique''])
     @ (if producttag_weight_gte_1 r then [] else [''producttag_weight_gte_1''])"

definition ProductTag_write :: "ProductTag \<Rightarrow> producttag_table \<Rightarrow> producttag_table" where
  "ProductTag_write r db =
     (if \<exists>q \<in> set db. pk q = pk r then map (\<lambda>q. if pk q = pk r then r else q) db
      else db @ [r])"

text \<open>
  \<open>ProductTag\<close> inherits \<open>Model.save\<close>; \<open>added_at\<close> is \<open>auto_now_add\<close>, stamped on the
  instance when the row is inserted.
\<close>

definition ProductTag_stamped :: "nat \<Rightarrow> ProductTag \<Rightarrow> producttag_table \<Rightarrow> ProductTag" where
  "ProductTag_stamped now t db =
     (if pk t \<noteq> None \<and> (\<exists>q \<in> set db. pk q = pk t) then t else t\<lparr>added_at := Some now\<rparr>)"

definition ProductTag_row :: "nat \<Rightarrow> ProductTag \<Rightarrow> producttag_table \<Rightarrow> ProductTag" where
  "ProductTag_row now t db =
     (case pk t of
        None \<Rightarrow> (ProductTag_stamped now t db)\<lparr>pk := Some (next_pk (map pk db))\<rparr>
      | Some k \<Rightarrow> ProductTag_stamped now t db)"

definition ProductTag_save ::
  "nat \<Rightarrow> ProductTag \<Rightarrow> producttag_table \<Rightarrow> ProductTag \<times> (error + producttag_table)" where
  "ProductTag_save now t db =
     (let r = ProductTag_row now t db; vs = ProductTag_violations r db
      in if vs = [] then (r, Inr (ProductTag_write r db))
         else (ProductTag_stamped now t db, Inl (IntegrityError vs)))"

inductive ProductTag_reachable :: "producttag_table \<Rightarrow> bool" where
  tr_empty: "ProductTag_reachable []"
| tr_save: "ProductTag_reachable db \<Longrightarrow> ProductTag_save now t db = (t', Inr db')
             \<Longrightarrow> ProductTag_reachable db'"
| tr_delete: "ProductTag_reachable db \<Longrightarrow> ProductTag_reachable (filter P db)"

subsection \<open>Product\<close>

record Product =
  pk :: "nat option"
  category :: "nat option"
  name :: string
  slug :: string
  description :: string
  price :: int
  is_active :: bool
  status :: string
  published_at :: "nat option"
  created_at :: "nat option"
  updated_at :: "nat option"

type_synonym product_table = "Product list"

text \<open>\<open>ProductStatus\<close>: the stored values of the three choices.\<close>

definition DRAFT :: string where
  "DRAFT = ''draft''"

definition PUBLISHED :: string where
  "PUBLISHED = ''published''"

definition ARCHIVED :: string where
  "ARCHIVED = ''archived''"

subsubsection \<open>ProductQuerySet\<close>

definition active :: "product_table \<Rightarrow> product_table" where
  "active qs = filter (\<lambda>p. is_active p = True) qs"

definition published :: "product_table \<Rightarrow> product_table" where
  "published qs = filter (\<lambda>p. status p = PUBLISHED \<and> is_active p = True) qs"

subsubsection \<open>Meta.constraints\<close>

definition product_price_gte_0 :: "Product \<Rightarrow> bool" where
  "product_price_gte_0 r = (price r \<ge> 0)"

text \<open>
  The two conditional unique indexes hold the rows with \<open>is_active = True\<close> only; the
  indexed expression is never NULL.
\<close>

definition product_name_ci_unique_active :: "Product \<Rightarrow> product_table \<Rightarrow> bool" where
  "product_name_ci_unique_active r db =
     (\<not> (is_active r \<and>
          (\<exists>q \<in> set db. pk q \<noteq> pk r \<and> is_active q \<and> Lower (name q) = Lower (name r))))"

definition product_slug_ci_unique_active :: "Product \<Rightarrow> product_table \<Rightarrow> bool" where
  "product_slug_ci_unique_active r db =
     (\<not> (is_active r \<and>
          (\<exists>q \<in> set db. pk q \<noteq> pk r \<and> is_active q \<and> Lower (slug q) = Lower (slug r))))"

definition Product_violations :: "Product \<Rightarrow> product_table \<Rightarrow> string list" where
  "Product_violations r db =
     (if product_price_gte_0 r then [] else [''product_price_gte_0''])
     @ (if product_name_ci_unique_active r db then [] else [''product_name_ci_unique_active''])
     @ (if product_slug_ci_unique_active r db then [] else [''product_slug_ci_unique_active''])"

subsubsection \<open>The inherited \<open>Model.save\<close>\<close>

definition Product_fields :: "string list" where
  "Product_fields =
     [''category'', ''name'', ''slug'', ''description'', ''price'', ''is_active'', ''status'',
      ''published_at'', ''created_at'', ''updated_at'']"

text \<open>The row \<open>old\<close> with the columns named in \<open>fs\<close> taken from the instance \<open>p\<close>.\<close>

definition set_fields :: "string list \<Rightarrow> Product \<Rightarrow> Product \<Rightarrow> Product" where
  "set_fields fs p old =
     old\<lparr>category := (if ''category'' \<in> set fs then category p else category old),
         name := (if ''name'' \<in> set fs then name p else name old),
         slug := (if ''slug'' \<in> set fs then slug p else slug old),
         description := (if ''description'' \<in> set fs then description p else description old),
         price := (if ''price'' \<in> set fs then price p else price old),
         is_active := (if ''is_active'' \<in> set fs then is_active p else is_active old),
         status := (if ''status'' \<in> set fs then status p else status old),
         published_at := (if ''published_at'' \<in> set fs then published_at p else published_at old),
         created_at := (if ''created_at'' \<in> set fs then created_at p else created_at old),
         updated_at := (if ''updated_at'' \<in> set fs then updated_at p else updated_at old)\<rparr>"

text \<open>
  INSERT under the key \<open>k\<close>.  \<open>created_at\<close> (\<open>auto_now_add\<close>) and \<open>updated_at\<close>
  (\<open>auto_now\<close>) are stamped on the instance before the statement runs; the instance gets its
  key once the row is stored.
\<close>

definition Product_insert ::
  "nat \<Rightarrow> nat \<Rightarrow> Product \<Rightarrow> product_table \<Rightarrow> Product \<times> (error + product_table)" where
  "Product_insert now k p db =
     (let p1 = p\<lparr>created_at := Some now, updated_at := Some now\<rparr>;
          r = p1\<lparr>pk := Some k\<rparr>;
          vs = Product_violations r db
      in if vs = [] then (r, Inr (db @ [r])) else (p1, Inl (IntegrityError vs)))"

text \<open>
  UPDATE of the row with the key of \<open>p\<close>: all columns, or the columns of \<open>update_fields\<close>.
  \<open>updated_at\<close> is stamped on the instance when it is among the columns written.
\<close>

definition Product_update ::
  "nat \<Rightarrow> string list option \<Rightarrow> Product \<Rightarrow> Product \<Rightarrow> product_table
     \<Rightarrow> Product \<times> (error + product_table)" where
  "Product_update now update_fields old p db =
     (let p1 = (case update_fields of
                  None \<Rightarrow> p\<lparr>updated_at := Some now\<rparr>
                | Some fs \<Rightarrow> if ''updated_at'' \<in> set fs then p\<lparr>updated_at := Some now\<rparr> else p);
          r = (case update_fields of None \<Rightarrow> p1 | Some fs \<Rightarrow> set_fields fs p1 old);
          vs = Product_violations r db
      in if vs = [] then (p1, Inr (map (\<lambda>q. if pk q = pk p then r else q) db))
         else (p1, Inl (IntegrityError vs)))"

text \<open>
  \<open>super().save(*args, **kwargs)\<close> with the keyword \<open>update_fields\<close>.  An empty list
  returns at once; an unknown column name, and \<open>update_fields\<close> on an instance without a
  key, raise \<open>ValueError\<close>; \<open>update_fields\<close> on a key that is not stored raises
  \<open>DatabaseError\<close>.  Without \<open>update_fields\<close> the row is updated if its key is stored and
  inserted otherwise.
\<close>

definition Model_save ::
  "nat \<Rightarrow> string list option \<Rightarrow> Product \<Rightarrow> product_table \<Rightarrow> Product \<times> (error + product_table)" where
  "Model_save now update_fields p db =
     (if update_fields = Some [] then (p, Inr db)
      else if \<exists>fs. update_fields = Some fs \<and> \<not> set fs \<subseteq> set Product_fields
        then (p, Inl ValueError)
      else case pk p of
          None \<Rightarrow>
            if update_fields \<noteq> None then (p, Inl ValueError)
            else Product_insert now (next_pk (map pk db)) p db
        | Some k \<Rightarrow>
            (case find (\<lambda>q. pk q = Some k) db of
               Some old \<Rightarrow> Product_update now update_fields old p db
             | None \<Rightarrow>
                 (case update_fields of
                    Some fs \<Rightarrow>
                      (if ''updated_at'' \<in> set fs then p\<lparr>updated_at := Some now\<rparr> else p,
                       Inl DatabaseError)
                  | None \<Rightarrow> Product_insert now k p db)))"

subsubsection \<open>Slug assignment\<close>

text \<open>Python's \<open>str(i)\<close> of a non-negative integer, as the f-string formats \<open>i\<close>.\<close>

definition digit_char :: "nat \<Rightarrow> char" where
  "digit_char d = char_of (48 + d)"

fun str_nat :: "nat \<Rightarrow> string" where
  "str_nat n = (if n < 10 then [digit_char n] else str_nat (n div 10) @ [digit_char (n mod 10)])"

declare str_nat.simps [simp del]

definition nat_of_str :: "string \<Rightarrow> nat" where
  "nat_of_str s = foldl (\<lambda>a c. 10 * a + (of_char c - 48)) 0 s"

lemma digit_char_val: "d < 10 \<Longrightarrow> (of_char (digit_char d) :: nat) - 48 = d"
  by (simp add: digit_char_def)

lemma nat_of_str_nat: "nat_of_str (str_nat n) = n"
proof (induction n rule: str_nat.induct)
  case (1 n)
  show ?case
  proof (cases "n < 10")
    case True
    then show ?thesis by (simp add: str_nat.simps [of n] nat_of_str_def digit_char_val)
  next
    case False
    have "nat_of_str (str_nat n) = 10 * nat_of_str (str_nat (n div 10)) + n mod 10"
      using False by (simp add: str_nat.simps [of n] nat_of_str_def digit_char_val)
    with 1 False show ?thesis by simp
  qed
qed

lemma str_nat_inj: "str_nat m = str_nat n \<Longrightarrow> m = n"
  by (metis nat_of_str_nat)

text \<open>
  \<open>Product.objects.filter(slug=slug, is_active=True).exclude(pk=self.pk).exists()\<close>;
  every stored row has a key, so \<open>exclude(pk=None)\<close> excludes nothing.
\<close>

definition slug_exists :: "product_table \<Rightarrow> nat option \<Rightarrow> string \<Rightarrow> bool" where
  "slug_exists db self_pk s =
     (filter (\<lambda>q. pk q \<noteq> self_pk) (filter (\<lambda>q. slug q = s \<and> is_active q = True) db) \<noteq> [])"

text \<open>The suffixes from \<open>i\<close> on whose candidate is in use: the loop's variant.\<close>

definition later_taken :: "product_table \<Rightarrow> nat option \<Rightarrow> string \<Rightarrow> nat \<Rightarrow> nat set" where
  "later_taken db self_pk base i =
     {j. i \<le> j \<and> slug_exists db self_pk (base @ ''-'' @ str_nat j)}"

lemma slug_exists_iff:
  "slug_exists db self_pk s \<longleftrightarrow> (\<exists>q \<in> set db. slug q = s \<and> is_active q \<and> pk q \<noteq> self_pk)"
  by (auto simp: slug_exists_def filter_empty_conv)

lemma finite_later_taken: "finite (later_taken db self_pk base i)"
proof -
  let ?f = "\<lambda>j. base @ ''-'' @ str_nat j"
  have inj: "inj ?f" by (auto simp: inj_on_def dest: str_nat_inj)
  have "later_taken db self_pk base i \<subseteq> ?f -` (slug ` set db)"
    by (force simp: later_taken_def slug_exists_iff)
  moreover have "finite (?f -` (slug ` set db))"
    using inj by (intro finite_vimageI) auto
  ultimately show ?thesis by (rule finite_subset)
qed

lemma later_taken_Suc:
  "later_taken db self_pk base (Suc i) = later_taken db self_pk base i - {i}"
  by (auto simp: later_taken_def)

text \<open>
  The \<open>while\<close> loop of \<open>_ensure_slug\<close>, entered with \<open>slug = base\<close> and \<open>i = 2\<close>.  It ends
  because the candidates are pairwise distinct and the table is finite.
\<close>

function slug_loop :: "product_table \<Rightarrow> nat option \<Rightarrow> string \<Rightarrow> string \<Rightarrow> nat \<Rightarrow> string" where
  "slug_loop db self_pk base s i =
     (if slug_exists db self_pk s
      then slug_loop db self_pk base (base @ ''-'' @ str_nat i) (i + 1)
      else s)"
  by pat_completeness auto
termination
proof (relation "measure (\<lambda>(db, self_pk, base, s, i).
          (if slug_exists db self_pk s then 1 else 0) + 2 * card (later_taken db self_pk base i))")
  show "wf (measure (\<lambda>(db, self_pk, base, s, i).
          (if slug_exists db self_pk s then 1 else 0) + 2 * card (later_taken db self_pk base i)))"
    by simp
next
  fix db :: product_table and self_pk base s and i :: nat
  assume taken: "slug_exists db self_pk s"
  let ?c = "base @ ''-'' @ str_nat i"
  show "((db, self_pk, base, ?c, i + 1), (db, self_pk, base, s, i))
          \<in> measure (\<lambda>(db, self_pk, base, s, i).
          (if slug_exists db self_pk s then 1 else 0) + 2 * card (later_taken db self_pk base i))"
  proof (cases "slug_exists db self_pk ?c")
    case True
    then have "i \<in> later_taken db self_pk base i" by (simp add: later_taken_def)
    then have "card (later_taken db self_pk base (Suc i)) < card (later_taken db self_pk base i)"
      unfolding later_taken_Suc by (intro card_Diff1_less finite_later_taken)
    with taken True show ?thesis by simp
  next
    case False
    then have "i \<notin> later_taken db self_pk base i" by (simp add: later_taken_def)
    then have "later_taken db self_pk base (Suc i) = later_taken db self_pk base i"
      by (simp add: later_taken_Suc)
    with taken False show ?thesis by simp
  qed
qed

declare slug_loop.simps [simp del]

text \<open>
  \<open>Product._ensure_slug\<close>.  \<open>slugify\<close> is \<open>django.utils.text.slugify\<close>, a parameter of the
  model.
\<close>

definition ensure_slug :: "(string \<Rightarrow> string) \<Rightarrow> product_table \<Rightarrow> Product \<Rightarrow> Product" where
  "ensure_slug slugify db self =
     (if slug self \<noteq> [] \<or> name self = [] then self
      else let base = (if slugify (name self) \<noteq> [] then slugify (name self) else ''product'')
           in self\<lparr>slug := slug_loop db (pk self) base base 2\<rparr>)"

text \<open>\<open>Product.save\<close>.\<close>

definition save ::
  "(string \<Rightarrow> string) \<Rightarrow> nat \<Rightarrow> string list option \<Rightarrow> Product \<Rightarrow> product_table
     \<Rightarrow> Product \<times> (error + product_table)" where
  "save slugify now update_fields self db =
     (let s1 = ensure_slug slugify db self;
          s2 = (if status s1 = PUBLISHED \<and> published_at s1 = None
                then s1\<lparr>published_at := Some now\<rparr> else s1)
      in Model_save now update_fields s2 db)"

text \<open>\<open>Product.publish\<close>; a \<open>datetime\<close> is always true, so \<open>or\<close> keeps a timestamp that is set.\<close>

definition publish ::
  "(string \<Rightarrow> string) \<Rightarrow> nat \<Rightarrow> Product \<Rightarrow> product_table \<Rightarrow> Product \<times> (error + product_table)" where
  "publish slugify now self db =
     (if status self \<noteq> PUBLISHED
      then save slugify now (Some [''status'', ''published_at'', ''updated_at''])
             (self\<lparr>status := PUBLISHED,
                   published_at := (case published_at self of
                                      None \<Rightarrow> Some now
                                    | Some t \<Rightarrow> Some t)\<rparr>) db
      else (self, Inr db))"

inductive Product_reachable :: "product_table \<Rightarrow> bool" where
  pr_empty: "Product_reachable []"
| pr_save: "Product_reachable db \<Longrightarrow> save slugify now update_fields p db = (p', Inr db')
             \<Longrightarrow> Product_reachable db'"
| pr_publish: "Product_reachable db \<Longrightarrow> publish slugify now p db = (p', Inr db')
             \<Longrightarrow> Product_reachable db'"
| pr_delete: "Product_reachable db \<Longrightarrow> Product_reachable (filter P db)"

subsection \<open>Invariants of the tables\<close>

definition ProductTag_inv :: "producttag_table \<Rightarrow> bool" where
  "ProductTag_inv db \<longleftrightarrow>
     None \<notin> set (map ProductTag.pk db) \<and> distinct (map ProductTag.pk db)
     \<and> (\<forall>r \<in> set db. weight r \<ge> 1)
     \<and> distinct (map (\<lambda>r. (product r, tag r)) db)"

subsection \<open>Example instances\<close>

definition kitchen :: Category where
  "kitchen = \<lparr>Category.pk = None, name = ''Kitchen'', slug = ''kitchen'', parent = None\<rparr>"

definition kitchen_again :: Category where
  "kitchen_again = \<lparr>Category.pk = None, name = ''Kitchen (2019)'', slug = ''Kitchen'', parent = None\<rparr>"

definition own_parent :: Category where
  "own_parent = \<lparr>Category.pk = Some 1, name = ''Kitchen'', slug = ''kitchen'', parent = Some 1\<rparr>"

definition mug_tag :: ProductTag where
  "mug_tag = \<lparr>ProductTag.pk = None, product = 1, tag = 7, weight = 3, added_at = None\<rparr>"

section \<open>Verification\<close>

subsection \<open>Keys\<close>

lemma fold_max_ge: "(a::nat) \<le> fold max xs a \<and> (\<forall>x \<in> set xs. x \<le> fold max xs a)"
proof (induction xs arbitrary: a)
  case Nil
  show ?case by simp
next
  case (Cons y ys)
  have "max y a \<le> fold max ys (max y a)" and "\<forall>x \<in> set ys. x \<le> fold max ys (max y a)"
    using Cons.IH [of "max y a"] by simp_all
  then show ?case by auto
qed

lemma next_pk_fresh: "Some (next_pk ks) \<notin> set ks"
proof
  assume "Some (next_pk ks) \<in> set ks"
  then have "next_pk ks \<in> set (map (\<lambda>k. case k of None \<Rightarrow> 0 | Some n \<Rightarrow> n) ks)"
    by force
  then have "next_pk ks \<le> fold max (map (\<lambda>k. case k of None \<Rightarrow> 0 | Some n \<Rightarrow> n) ks) 0"
    using fold_max_ge by blast
  then show False by (simp add: next_pk_def)
qed

lemma next_pk_fresh_row: "q \<in> set db \<Longrightarrow> f q \<noteq> Some (next_pk (map f db))"
  using next_pk_fresh [of "map f db"] by force

subsection \<open>Category\<close>

lemma Category_row_fields:
  "Category.pk (Category_row c db) \<noteq> None"
  "parent (Category_row c db) = parent c"
  "Category.slug (Category_row c db) = Category.slug c"
  "Category.pk c = Some k \<Longrightarrow> Category_row c db = c"
  by (simp_all add: Category_row_def split: option.splits)

lemma Category_save_success:
  assumes "Category_save c db = (c', Inr db')"
  shows "c' = Category_row c db \<and> Category_violations c' db = [] \<and> db' = Category_write c' db"
  using assms by (auto simp: Category_save_def Let_def split: if_splits)

lemma Category_violations_Nil:
  "Category_violations r db = [] \<longleftrightarrow> cat_unique_slug_per_parent_ci r db \<and> cat_no_self_parent r"
  by (simp add: Category_violations_def)

lemma Category_write_set: "set (Category_write r db) \<subseteq> insert r (set db)"
  by (auto simp: Category_write_def)

lemma Category_reachable_inv:
  "Category_reachable db \<Longrightarrow> \<forall>c \<in> set db. Category.pk c \<noteq> None \<and> parent c \<noteq> Category.pk c"
proof (induction rule: Category_reachable.induct)
  case cr_empty
  show ?case by simp
next
  case (cr_save db c c' db')
  from cr_save.hyps(2) have ok: "Category.pk c' \<noteq> None" "cat_no_self_parent c'"
    and db': "db' = Category_write c' db"
    using Category_save_success [of c db c' db']
    by (auto simp: Category_violations_Nil Category_row_fields)
  from ok have "parent c' \<noteq> Category.pk c'" by (auto simp: cat_no_self_parent_def)
  with ok(1) cr_save.IH db' Category_write_set [of c' db] show ?case by auto
next
  case (cr_delete db P)
  then show ?case by simp
qed

lemma Category_self_parent_rejected:
  assumes "parent (Category_row c db) = Category.pk (Category_row c db)"
  shows "\<exists>vs. Category_save c db = (c, Inl (IntegrityError vs)) \<and> ''cat_no_self_parent'' \<in> set vs"
proof -
  have "\<not> cat_no_self_parent (Category_row c db)"
    using assms by (simp add: cat_no_self_parent_def Category_row_fields)
  then show ?thesis
    by (simp add: Category_save_def Let_def Category_violations_def)
qed

subsection \<open>ProductTag\<close>

lemma ProductTag_violations_Nil:
  "ProductTag_violations r db = [] \<longleftrightarrow> product_tag_unique r db \<and> producttag_weight_gte_1 r"
  by (simp add: ProductTag_violations_def)

lemma ProductTag_row_fields:
  "product (ProductTag_row now t db) = product t" "tag (ProductTag_row now t db) = tag t"
  "weight (ProductTag_row now t db) = weight t"
  "ProductTag.pk (ProductTag_row now t db) =
     (case ProductTag.pk t of None \<Rightarrow> Some (next_pk (map ProductTag.pk db)) | Some k \<Rightarrow> Some k)"
  by (simp_all add: ProductTag_row_def ProductTag_stamped_def split: option.splits)

lemma ProductTag_save_success:
  assumes "ProductTag_save now t db = (t', Inr db')"
  shows "t' = ProductTag_row now t db \<and> ProductTag_violations t' db = []
         \<and> db' = ProductTag_write t' db"
  using assms by (auto simp: ProductTag_save_def Let_def split: if_splits)

lemma ProductTag_write_inv:
  assumes inv: "ProductTag_inv db" and pk: "ProductTag.pk r \<noteq> None"
    and uniq: "product_tag_unique r db" and w: "producttag_weight_gte_1 r"
  shows "ProductTag_inv (ProductTag_write r db)"
proof (cases "\<exists>q \<in> set db. ProductTag.pk q = ProductTag.pk r")
  case False
  then have "ProductTag_write r db = db @ [r]" by (simp add: ProductTag_write_def)
  moreover have "(product r, tag r) \<notin> set (map (\<lambda>r. (product r, tag r)) db)"
    using uniq False by (auto simp: product_tag_unique_def)
  moreover have "ProductTag.pk r \<notin> set (map ProductTag.pk db)"
    using False by force
  ultimately show ?thesis
    using inv pk w by (auto simp: ProductTag_inv_def producttag_weight_gte_1_def)
next
  case True
  let ?g = "\<lambda>q. if ProductTag.pk q = ProductTag.pk r then r else q"
  let ?f = "\<lambda>r. (product r, tag r)"
  have w': "ProductTag_write r db = map ?g db" using True by (simp add: ProductTag_write_def)
  have pks: "map ProductTag.pk (map ?g db) = map ProductTag.pk db" by (induction db) auto
  have dist: "distinct db" and inj_pk: "inj_on ProductTag.pk (set db)" and inj_f: "inj_on ?f (set db)"
    using inv by (auto simp: ProductTag_inv_def distinct_map)
  have "inj_on (?f \<circ> ?g) (set db)"
  proof (rule inj_onI)
    fix x y assume x: "x \<in> set db" and y: "y \<in> set db" and eq: "(?f \<circ> ?g) x = (?f \<circ> ?g) y"
    show "x = y"
    proof (cases "ProductTag.pk x = ProductTag.pk r"; cases "ProductTag.pk y = ProductTag.pk r")
      assume "ProductTag.pk x = ProductTag.pk r" "ProductTag.pk y = ProductTag.pk r"
      then have "ProductTag.pk x = ProductTag.pk y" by simp
      with inj_pk x y show ?thesis by (meson inj_onD)
    next
      assume a: "ProductTag.pk x = ProductTag.pk r" "ProductTag.pk y \<noteq> ProductTag.pk r"
      with eq have "product y = product r \<and> tag y = tag r" by simp
      with uniq y a(2) show ?thesis by (auto simp: product_tag_unique_def)
    next
      assume a: "ProductTag.pk x \<noteq> ProductTag.pk r" "ProductTag.pk y = ProductTag.pk r"
      with eq have "product x = product r \<and> tag x = tag r" by simp
      with uniq x a(1) show ?thesis by (auto simp: product_tag_unique_def)
    next
      assume "ProductTag.pk x \<noteq> ProductTag.pk r" "ProductTag.pk y \<noteq> ProductTag.pk r"
      with eq have "?f x = ?f y" by simp
      with inj_f x y show ?thesis by (meson inj_onD)
    qed
  qed
  with dist have "distinct (map ?f (map ?g db))" by (simp add: distinct_map)
  moreover have "\<forall>q \<in> set (map ?g db). weight q \<ge> 1"
    using inv w by (auto simp: ProductTag_inv_def producttag_weight_gte_1_def)
  ultimately show ?thesis
    using inv unfolding w' ProductTag_inv_def pks by simp
qed

lemma ProductTag_inv_filter: "ProductTag_inv db \<Longrightarrow> ProductTag_inv (filter P db)"
  by (auto simp: ProductTag_inv_def distinct_map_filter)

lemma ProductTag_reachable_inv: "ProductTag_reachable db \<Longrightarrow> ProductTag_inv db"
proof (induction rule: ProductTag_reachable.induct)
  case tr_empty
  show ?case by (simp add: ProductTag_inv_def)
next
  case (tr_save db now t t' db')
  from tr_save.hyps(2) have t': "t' = ProductTag_row now t db"
    and ok: "product_tag_unique t' db" "producttag_weight_gte_1 t'"
    and db': "db' = ProductTag_write t' db"
    using ProductTag_save_success [of now t db t' db'] by (auto simp: ProductTag_violations_Nil)
  have "ProductTag.pk t' \<noteq> None" unfolding t' by (simp add: ProductTag_row_fields split: option.splits)
  with tr_save.IH ok show ?case unfolding db' by (intro ProductTag_write_inv)
next
  case (tr_delete db P)
  from tr_delete.IH show ?case by (rule ProductTag_inv_filter)
qed

lemma ProductTag_save_rejects:
  "ProductTag_violations (ProductTag_row now t db) db \<noteq> [] \<Longrightarrow>
   snd (ProductTag_save now t db)
     = Inl (IntegrityError (ProductTag_violations (ProductTag_row now t db) db))"
  by (simp add: ProductTag_save_def Let_def)

lemma ProductTag_weight_rejected:
  assumes "weight t < 1"
  shows "\<exists>vs. snd (ProductTag_save now t db) = Inl (IntegrityError vs)
           \<and> ''producttag_weight_gte_1'' \<in> set vs"
proof -
  have "''producttag_weight_gte_1'' \<in> set (ProductTag_violations (ProductTag_row now t db) db)"
    using assms by (simp add: ProductTag_violations_def producttag_weight_gte_1_def ProductTag_row_fields)
  then show ?thesis using ProductTag_save_rejects [of now t db] by force
qed

lemma ProductTag_duplicate_rejected:
  assumes "q \<in> set db" "ProductTag.pk q \<noteq> ProductTag.pk t" "product q = product t" "tag q = tag t"
  shows "\<exists>vs. snd (ProductTag_save now t db) = Inl (IntegrityError vs)
           \<and> ''product_tag_unique'' \<in> set vs"
proof -
  have "ProductTag.pk q \<noteq> ProductTag.pk (ProductTag_row now t db)"
    using assms(1,2) next_pk_fresh_row [of q db ProductTag.pk]
    by (auto simp: ProductTag_row_fields split: option.splits)
  with assms have "\<not> product_tag_unique (ProductTag_row now t db) db"
    by (auto simp: product_tag_unique_def ProductTag_row_fields)
  then have "''product_tag_unique'' \<in> set (ProductTag_violations (ProductTag_row now t db) db)"
    by (simp add: ProductTag_violations_def)
  then show ?thesis using ProductTag_save_rejects [of now t db] by force
qed

subsection \<open>The claims about Category and ProductTag\<close>

lemma lower_char_simps:
  "lower_char CHR ''K'' = CHR ''k''" "lower_char CHR ''k'' = CHR ''k''"
  by code_simp+

lemma kitchen_saved:
  "Category_save kitchen [] = (kitchen\<lparr>Category.pk := Some 1\<rparr>, Inr [kitchen\<lparr>Category.pk := Some 1\<rparr>])"
  by (simp add: Category_save_def Category_row_def Category_violations_def Category_write_def
      cat_unique_slug_per_parent_ci_def cat_no_self_parent_def next_pk_def kitchen_def Let_def)

lemma kitchen_again_saved:
  "Category_save kitchen_again [kitchen\<lparr>Category.pk := Some 1\<rparr>]
     = (kitchen_again\<lparr>Category.pk := Some 2\<rparr>,
        Inr [kitchen\<lparr>Category.pk := Some 1\<rparr>, kitchen_again\<lparr>Category.pk := Some 2\<rparr>])"
  by (simp add: Category_save_def Category_row_def Category_violations_def Category_write_def
      cat_unique_slug_per_parent_ci_def cat_no_self_parent_def next_pk_def kitchen_def
      kitchen_again_def Let_def numeral_2_eq_2)

text \<open>
  Claim C7.  No stored category is its own parent: every row of a reachable table has a key,
  and its parent is NULL or differs from that key.  A write whose row would be its own parent
  (under the key of the instance, or under the key a new row is given) is rejected with
  \<open>cat_no_self_parent\<close>.
\<close>

theorem Category_never_own_parent:
  "(Category_reachable db \<longrightarrow>
      (\<forall>c \<in> set db. Category.pk c \<noteq> None \<and> (parent c = None \<or> parent c \<noteq> Category.pk c)))
   \<and> (parent c = Some k \<and> (Category.pk c = Some k
          \<or> Category.pk c = None \<and> k = next_pk (map Category.pk db)) \<longrightarrow>
      (\<exists>vs. Category_save c db = (c, Inl (IntegrityError vs)) \<and> ''cat_no_self_parent'' \<in> set vs))"
proof (intro conjI impI)
  assume "Category_reachable db"
  then show "\<forall>c \<in> set db. Category.pk c \<noteq> None \<and> (parent c = None \<or> parent c \<noteq> Category.pk c)"
    using Category_reachable_inv [of db] by blast
next
  assume "parent c = Some k \<and> (Category.pk c = Some k
          \<or> Category.pk c = None \<and> k = next_pk (map Category.pk db))"
  then have "parent (Category_row c db) = Category.pk (Category_row c db)"
    by (auto simp: Category_row_def)
  then show "\<exists>vs. Category_save c db = (c, Inl (IntegrityError vs)) \<and> ''cat_no_self_parent'' \<in> set vs"
    by (rule Category_self_parent_rejected)
qed

theorem Category_never_own_parent_witness:
  "Category_reachable [kitchen\<lparr>Category.pk := Some 1\<rparr>]
   \<and> parent (kitchen\<lparr>Category.pk := Some 1\<rparr>) = None
   \<and> parent own_parent = Category.pk own_parent
   \<and> Category_save own_parent [kitchen\<lparr>Category.pk := Some 1\<rparr>]
       = (own_parent, Inl (IntegrityError [''cat_no_self_parent'']))"
proof -
  have r: "Category_reachable [kitchen\<lparr>Category.pk := Some 1\<rparr>]"
    by (rule cr_save [OF cr_empty kitchen_saved])
  have h: "parent own_parent = Some 1 \<and> (Category.pk own_parent = Some 1
          \<or> Category.pk own_parent = None \<and> 1 = next_pk (map Category.pk [kitchen\<lparr>Category.pk := Some 1\<rparr>]))"
    by (simp add: own_parent_def)
  from Category_never_own_parent [of "[kitchen\<lparr>Category.pk := Some 1\<rparr>]" own_parent 1] r h
  have "\<forall>c \<in> set [kitchen\<lparr>Category.pk := Some 1\<rparr>]. Category.pk c \<noteq> None \<and> (parent c = None \<or> parent c \<noteq> Category.pk c)"
    and "\<exists>vs. Category_save own_parent [kitchen\<lparr>Category.pk := Some 1\<rparr>] = (own_parent, Inl (IntegrityError vs)) \<and> ''cat_no_self_parent'' \<in> set vs"
    by blast+
  moreover have "Category_save own_parent [kitchen\<lparr>Category.pk := Some 1\<rparr>]
       = (own_parent, Inl (IntegrityError [''cat_no_self_parent'']))"
    by (simp add: Category_save_def Category_row_def Category_violations_def
      cat_unique_slug_per_parent_ci_def cat_no_self_parent_def own_parent_def kitchen_def Let_def)
  ultimately show ?thesis using r by (simp add: kitchen_def own_parent_def)
qed

text \<open>
  Claim C5.  Two categories without a parent whose slugs differ in case only are both stored:
  the unique index over \<open>(Lower(slug), parent)\<close> does not compare rows with a NULL parent.
\<close>

theorem Category_root_slug_stored_twice:
  "Category_reachable [kitchen\<lparr>Category.pk := Some 1\<rparr>, kitchen_again\<lparr>Category.pk := Some 2\<rparr>]
   \<and> kitchen\<lparr>Category.pk := Some 1\<rparr> \<noteq> kitchen_again\<lparr>Category.pk := Some 2\<rparr>
   \<and> parent (kitchen\<lparr>Category.pk := Some 1\<rparr>) = parent (kitchen_again\<lparr>Category.pk := Some 2\<rparr>)
   \<and> Lower (Category.slug (kitchen\<lparr>Category.pk := Some 1\<rparr>))
       = Lower (Category.slug (kitchen_again\<lparr>Category.pk := Some 2\<rparr>))"
proof -
  have "Category_reachable [kitchen\<lparr>Category.pk := Some 1\<rparr>]"
    by (rule cr_save [OF cr_empty kitchen_saved])
  then have "Category_reachable [kitchen\<lparr>Category.pk := Some 1\<rparr>, kitchen_again\<lparr>Category.pk := Some 2\<rparr>]"
    by (rule cr_save [OF _ kitchen_again_saved])
  then show ?thesis
    by (simp add: kitchen_def kitchen_again_def Lower_def lower_char_simps)
qed

text \<open>
  Claim C6.  A \<open>ProductTag\<close> with weight 0 is rejected; one whose \<open>(product, tag)\<close> pair is
  held by another row is rejected; in every reachable table all weights are at least 1 and no
  two rows share a \<open>(product, tag)\<close> pair.
\<close>

theorem ProductTag_constraints:
  "(weight t = 0 \<longrightarrow>
      (\<exists>vs. snd (ProductTag_save now t db) = Inl (IntegrityError vs)
         \<and> ''producttag_weight_gte_1'' \<in> set vs))
   \<and> ((\<exists>q \<in> set db. ProductTag.pk q \<noteq> ProductTag.pk t \<and> product q = product t \<and> tag q = tag t) \<longrightarrow>
      (\<exists>vs. snd (ProductTag_save now t db) = Inl (IntegrityError vs)
         \<and> ''product_tag_unique'' \<in> set vs))
   \<and> (ProductTag_reachable db \<longrightarrow>
      (\<forall>r \<in> set db. weight r \<ge> 1) \<and> distinct (map (\<lambda>r. (product r, tag r)) db))"
proof (intro conjI impI)
  assume "weight t = 0"
  then have "weight t < 1" by simp
  then show "\<exists>vs. snd (ProductTag_save now t db) = Inl (IntegrityError vs)
         \<and> ''producttag_weight_gte_1'' \<in> set vs"
    by (rule ProductTag_weight_rejected)
next
  assume "\<exists>q \<in> set db. ProductTag.pk q \<noteq> ProductTag.pk t \<and> product q = product t \<and> tag q = tag t"
  then show "\<exists>vs. snd (ProductTag_save now t db) = Inl (IntegrityError vs)
         \<and> ''product_tag_unique'' \<in> set vs"
    using ProductTag_duplicate_rejected [of _ db t now] by blast
next
  assume "ProductTag_reachable db"
  then have "ProductTag_inv db" by (rule ProductTag_reachable_inv)
  then show "\<forall>r \<in> set db. weight r \<ge> 1" and "distinct (map (\<lambda>r. (product r, tag r)) db)"
    by (simp_all add: ProductTag_inv_def)
qed

lemma mug_tag_saved:
  "ProductTag_save 50 mug_tag []
     = (mug_tag\<lparr>ProductTag.pk := Some 1, added_at := Some 50\<rparr>,
        Inr [mug_tag\<lparr>ProductTag.pk := Some 1, added_at := Some 50\<rparr>])"
  by (simp add: ProductTag_save_def ProductTag_row_def ProductTag_stamped_def
      ProductTag_violations_def ProductTag_write_def product_tag_unique_def
      producttag_weight_gte_1_def next_pk_def mug_tag_def Let_def)

theorem ProductTag_constraints_witness:
  "ProductTag_reachable [mug_tag\<lparr>ProductTag.pk := Some 1, added_at := Some 50\<rparr>]
   \<and> weight (mug_tag\<lparr>ProductTag.pk := Some 1, added_at := Some 50\<rparr>) = 3
   \<and> snd (ProductTag_save 60 (mug_tag\<lparr>weight := 0\<rparr>)
            [mug_tag\<lparr>ProductTag.pk := Some 1, added_at := Some 50\<rparr>])
       = Inl (IntegrityError [''product_tag_unique'', ''producttag_weight_gte_1''])
   \<and> snd (ProductTag_save 60 mug_tag [mug_tag\<lparr>ProductTag.pk := Some 1, added_at := Some 50\<rparr>])
       = Inl (IntegrityError [''product_tag_unique''])"
proof -
  let ?row = "mug_tag\<lparr>ProductTag.pk := Some 1, added_at := Some 50\<rparr>"
  have r: "ProductTag_reachable [?row]"
    by (rule tr_save [OF tr_empty mug_tag_saved])
  have w: "weight (mug_tag\<lparr>weight := 0\<rparr>) = 0" by simp
  have d: "\<exists>q \<in> set [?row]. ProductTag.pk q \<noteq> ProductTag.pk mug_tag
             \<and> product q = product mug_tag \<and> tag q = tag mug_tag"
    by (simp add: mug_tag_def)
  have "\<exists>vs. snd (ProductTag_save 60 (mug_tag\<lparr>weight := 0\<rparr>) [?row]) = Inl (IntegrityError vs)
          \<and> ''producttag_weight_gte_1'' \<in> set vs"
    using ProductTag_constraints [of "mug_tag\<lparr>weight := 0\<rparr>" 60 "[?row]"] w by blast
  moreover have "\<exists>vs. snd (ProductTag_save 60 mug_tag [?row]) = Inl (IntegrityError vs)
          \<and> ''product_tag_unique'' \<in> set vs"
    using ProductTag_constraints [of mug_tag 60 "[?row]"] d by blast
  moreover have "(\<forall>r \<in> set [?row]. weight r \<ge> 1) \<and> distinct (map (\<lambda>r. (product r, tag r)) [?row])"
    using ProductTag_constraints [of mug_tag 60 "[?row]"] r by blast
  moreover have "snd (ProductTag_save 60 (mug_tag\<lparr>weight := 0\<rparr>) [?row])
       = Inl (IntegrityError [''product_tag_unique'', ''producttag_weight_gte_1''])"
    by (simp add: ProductTag_save_def ProductTag_row_def ProductTag_stamped_def
      ProductTag_violations_def product_tag_unique_def
      producttag_weight_gte_1_def next_pk_def mug_tag_def Let_def)
  moreover have "snd (ProductTag_save 60 mug_tag [?row]) = Inl (IntegrityError [''product_tag_unique''])"
    by (simp add: ProductTag_save_def ProductTag_row_def ProductTag_stamped_def
      ProductTag_violations_def product_tag_unique_def
      producttag_weight_gte_1_def next_pk_def mug_tag_def Let_def)
  ultimately show ?thesis using r by (simp add: mug_tag_def)
qed

end
